theory Spec2Isabelle
  imports Main
begin

section \<open>The search header (header.tsx)\<close>

text \<open>
  The header component wires DOM events to the store's dispatch. The store itself
  (\<^verbatim>\<open>../state/search\<close>) is outside the file: an action is kept as the value
  the action creator was applied to, and \<^verbatim>\<open>dispatch\<close> is modelled by the
  list of actions dispatched so far.
\<close>

datatype action = doSearch string | doReset

text \<open>A DOM node is known by its identity only.\<close>

type_synonym element = nat

record KeyboardEvent =
  key :: string
  target :: element
  defaultPrevented :: bool

record FormEvent =
  currentTarget_value :: string

text \<open>The two keyup listeners the component's effects register on the document.\<close>

datatype listener = handler_focus_listener | handler_reset_listener

text \<open>
  What the handlers read and write: \<^verbatim>\<open>inputRef.current\<close> (null until the input
  is mounted), the element that has the focus, the document's keyup listeners in
  registration order, and the actions dispatched.
\<close>

record page =
  inputRef_current :: "element option"
  activeElement :: "element option"
  keyup_listeners :: "listener list"
  dispatched :: "action list"

definition dispatch :: "action \<Rightarrow> page \<Rightarrow> page" where
  "dispatch a p = p\<lparr>dispatched := dispatched p @ [a]\<rparr>"

definition preventDefault :: "KeyboardEvent \<Rightarrow> KeyboardEvent" where
  "preventDefault e = e\<lparr>defaultPrevented := True\<rparr>"

definition focus :: "element \<Rightarrow> page \<Rightarrow> page" where
  "focus el p = p\<lparr>activeElement := Some el\<rparr>"

text \<open>\<^verbatim>\<open>handleChange\<close>: lines 30-35.\<close>

definition handleChange :: "FormEvent \<Rightarrow> page \<Rightarrow> page" where
  "handleChange e p = dispatch (doSearch (currentTarget_value e)) p"

text \<open>The handler of the first effect, lines 38-47.\<close>

definition handler_focus :: "KeyboardEvent \<Rightarrow> page \<Rightarrow> KeyboardEvent \<times> page" where
  "handler_focus e p =
     (case inputRef_current p of
        None \<Rightarrow> (e, p)
      | Some inp \<Rightarrow>
          if target e \<noteq> inp \<and> key e = ''/''
          then (preventDefault e, focus inp p)
          else (e, p))"

text \<open>The handler of the second effect, lines 57-61.\<close>

definition handler_reset :: "KeyboardEvent \<Rightarrow> page \<Rightarrow> KeyboardEvent \<times> page" where
  "handler_reset e p = (if key e = ''Escape'' then (e, dispatch doReset p) else (e, p))"

text \<open>
  \<^verbatim>\<open>document.addEventListener('keyup', handler)\<close> and its removal in the effect's
  cleanup. Every run of an effect makes a new closure, so a registration is never a
  duplicate of an earlier one.
\<close>

definition addEventListener :: "listener \<Rightarrow> page \<Rightarrow> page" where
  "addEventListener l p = p\<lparr>keyup_listeners := keyup_listeners p @ [l]\<rparr>"

definition removeEventListener :: "listener \<Rightarrow> page \<Rightarrow> page" where
  "removeEventListener l p = p\<lparr>keyup_listeners := remove1 l (keyup_listeners p)\<rparr>"

text \<open>
  Mounting the component attaches the input to the ref and then runs the two effects in
  source order; unmounting runs their cleanups and detaches the ref.
\<close>

definition mount :: "element \<Rightarrow> page \<Rightarrow> page" where
  "mount inp p =
     addEventListener handler_reset_listener
       (addEventListener handler_focus_listener (p\<lparr>inputRef_current := Some inp\<rparr>))"

definition unmount :: "page \<Rightarrow> page" where
  "unmount p =
     (removeEventListener handler_reset_listener
        (removeEventListener handler_focus_listener p))\<lparr>inputRef_current := None\<rparr>"

fun run_listener :: "listener \<Rightarrow> KeyboardEvent \<times> page \<Rightarrow> KeyboardEvent \<times> page" where
  "run_listener handler_focus_listener (e, p) = handler_focus e p"
| "run_listener handler_reset_listener (e, p) = handler_reset e p"

text \<open>A keyup event that reaches the document runs the listeners in registration order.\<close>

definition keyup :: "KeyboardEvent \<Rightarrow> page \<Rightarrow> KeyboardEvent \<times> page" where
  "keyup e p = fold run_listener (keyup_listeners p) (e, p)"

text \<open>
  What the component renders, lines 12-23 and 72-98, as a function of the two values
  read from the store: \<^verbatim>\<open>useQuery()\<close> and \<^verbatim>\<open>useDirty()\<close>.
\<close>

record root_style =
  width :: string
  flex_direction :: string
  padding_top :: string
  padding_bottom :: string
  position_css :: "string option"

definition Root :: "bool \<Rightarrow> root_style" where
  "Root dirty =
     \<lparr>width = (if dirty then ''960px'' else ''40%''),
      flex_direction = (if dirty then ''row'' else ''column''),
      padding_top = (if dirty then ''15px'' else ''0''),
      padding_bottom = (if dirty then ''15px'' else ''35vh''),
      position_css = (if dirty then Some ''fixed'' else None)\<rparr>"

record input_props =
  input_width :: string
  margin_top :: string
  margin_left :: string
  onChange :: "FormEvent \<Rightarrow> page \<Rightarrow> page"
  input_value :: string
  autoFocus :: bool

record header_view =
  root :: root_style
  logo_width :: string
  input :: input_props

definition Header :: "string \<Rightarrow> bool \<Rightarrow> header_view" where
  "Header query dirty =
     \<lparr>root = Root dirty,
      logo_width = (if dirty then ''200px'' else ''50%''),
      input =
        \<lparr>input_width = ''100%'',
         margin_top = (if dirty then ''none'' else ''30px''),
         margin_left = (if dirty then ''15px'' else ''none''),
         onChange = handleChange,
         input_value = query,
         autoFocus = True\<rparr>\<rparr>"

section \<open>The verse result adapter (VerseResultAdapter)\<close>

text \<open>
  The exceptions the adapter's code can raise: a list or repeated-field index out of
  range, the cast of a missing child (\<^verbatim>\<open>null as Button\<close>), the cast of a child
  that is not a button, and a highlight word that is not a regular expression. Nothing
  in the adapter catches them: a call that raises is modelled by its exception alone, and
  the writes it made before raising are not kept.
\<close>

datatype exception =
  IndexOutOfBoundsException | NullPointerException | ClassCastException | PatternSyntaxException

subsection \<open>The search service's result\<close>

text \<open>
  Modelled from the spec: \<^verbatim>\<open>Service.Response.VerseResult\<close>, the generated message
  class of the search service, is not among the sources. The spec gives a verse result its
  highlight terms and its per-translation text; the adapter reads the key (book, chapter,
  verse), the number of the top translation, the texts by index and the highlight words.
\<close>

record VerseKey =
  key_book :: int
  key_chapter :: int
  key_verse :: int

record VerseResult =
  vkey :: VerseKey
  topTranslationValue :: int
  textList :: "string list"
  highlightsList :: "string list"

text \<open>
  Modelled from the spec: \<^verbatim>\<open>item.getText(idx)\<close>, the indexed getter of the repeated
  text field, which raises on an index outside the list.
\<close>

definition getText :: "VerseResult \<Rightarrow> int \<Rightarrow> exception + string" where
  "getText item idx =
     (if 0 \<le> idx \<and> idx < int (length (textList item))
      then Inr (textList item ! nat idx)
      else Inl IndexOutOfBoundsException)"

text \<open>\<^verbatim>\<open>data[position]\<close> on a Kotlin list.\<close>

definition get :: "'a list \<Rightarrow> int \<Rightarrow> exception + 'a" where
  "get xs i =
     (if 0 \<le> i \<and> i < int (length xs) then Inr (xs ! nat i)
      else Inl IndexOutOfBoundsException)"

subsection \<open>Platform values\<close>

text \<open>A context resolves the colour resource \<^verbatim>\<open>R.color.ibTextHighlight\<close>.\<close>

record Context =
  ibTextHighlight :: int

definition getColor_ibTextHighlight :: "Context \<Rightarrow> int" where
  "getColor_ibTextHighlight context = ibTextHighlight context"

datatype R_style = ibButton | ibButtonBold

datatype RegexOption = IGNORE_CASE

datatype Regex = Regex string RegexOption

text \<open>
  The result of \<^verbatim>\<open>HtmlCompat.fromHtml\<close> is kept symbolic: the HTML source and the
  mode it was parsed in.
\<close>

datatype html_mode = FROM_HTML_MODE_LEGACY | FROM_HTML_MODE_COMPACT

datatype CharSequence = Str string | Spanned string html_mode

definition fromHtml :: "string \<Rightarrow> html_mode \<Rightarrow> CharSequence" where
  "fromHtml source mode = Spanned source mode"

text \<open>Kotlin's string template of an \<^verbatim>\<open>Int\<close>: its decimal digits, with a sign.\<close>

definition digit_char :: "nat \<Rightarrow> char" where
  "digit_char d = ''0123456789'' ! d"

fun string_of_nat :: "nat \<Rightarrow> string" where
  "string_of_nat n =
     (if n < 10 then [digit_char n]
      else string_of_nat (n div 10) @ [digit_char (n mod 10)])"

declare string_of_nat.simps [simp del]

definition Int_toString :: "int \<Rightarrow> string" where
  "Int_toString i =
     (if i < 0 then CHR ''-'' # string_of_nat (nat (- i)) else string_of_nat (nat i))"

subsection \<open>Views\<close>

datatype OnClickListener = TranslationClick VerseResult nat

record LayoutParams =
  lp_width :: int
  lp_height :: int
  margins :: "int \<times> int \<times> int \<times> int"

definition WRAP_CONTENT :: int where
  "WRAP_CONTENT = - 2"

text \<open>
  A button, by the properties the adapter sets. \<open>None\<close> is the value the platform gave
  the property when the button was made.
\<close>

record Button =
  btn_text :: string
  textAppearance :: "R_style option"
  background_null :: bool
  minWidth :: "int option"
  minimumWidth :: "int option"
  minHeight :: "int option"
  minimumHeight :: "int option"
  padding :: "(int \<times> int \<times> int \<times> int) option"
  layoutParams :: "LayoutParams option"
  translation_tag :: "int option"
  onClickListener :: "OnClickListener option"

datatype View = Btn Button | NotAButton

text \<open>
  A view holder: the context of its views, the text of the title view, the text of the
  verse view, and the children of the translations layout in order. A child keeps its
  place in the layout for the life of the holder (the adapter only ever appends children,
  and only when it creates the holder), so a button is known by its index.
\<close>

record VerseResultViewHolder =
  view_context :: Context
  verseTitle :: string
  verseText :: CharSequence
  translationsHolder :: "View list"

definition childCount :: "VerseResultViewHolder \<Rightarrow> nat" where
  "childCount holder = length (translationsHolder holder)"

text \<open>\<^verbatim>\<open>ViewGroup.getChildAt\<close> answers null outside the children.\<close>

definition getChildAt :: "VerseResultViewHolder \<Rightarrow> nat \<Rightarrow> View option" where
  "getChildAt holder t =
     (if t < length (translationsHolder holder) then Some (translationsHolder holder ! t)
      else None)"

text \<open>The cast \<^verbatim>\<open>as Button\<close>.\<close>

fun as_Button :: "View option \<Rightarrow> exception + Button" where
  "as_Button None = Inl NullPointerException"
| "as_Button (Some (Btn b)) = Inr b"
| "as_Button (Some NotAButton) = Inl ClassCastException"

text \<open>A write to the button that is the \<open>t\<close>-th child.\<close>

definition set_child :: "VerseResultViewHolder \<Rightarrow> nat \<Rightarrow> Button \<Rightarrow> VerseResultViewHolder" where
  "set_child holder t b = holder\<lparr>translationsHolder := (translationsHolder holder)[t := Btn b]\<rparr>"

definition addView :: "VerseResultViewHolder \<Rightarrow> View \<Rightarrow> VerseResultViewHolder" where
  "addView holder v = holder\<lparr>translationsHolder := translationsHolder holder @ [v]\<rparr>"

subsection \<open>What the adapter takes from outside its file\<close>

text \<open>
  The Android version, the constant \<^verbatim>\<open>Data.Translation.TOTAL_VALUE\<close>, the functions
  \<^verbatim>\<open>getTranslationLabel\<close> and \<^verbatim>\<open>getBookName\<close>, the regular expression engine
  (which words it compiles, and \<^verbatim>\<open>Regex.replace\<close> with a transform of the matched
  text), and the views the layout \<^verbatim>\<open>R.layout.verse_result_view\<close> inflates to.
\<close>

record env =
  SDK_INT :: int
  TOTAL_VALUE :: int
  getTranslationLabel :: "int \<Rightarrow> string"
  getBookName :: "int \<Rightarrow> string"
  compiles :: "string \<Rightarrow> bool"
  replace :: "Regex \<Rightarrow> string \<Rightarrow> (string \<Rightarrow> string) \<Rightarrow> string"
  verse_result_view :: VerseResultViewHolder

definition toRegex :: "env \<Rightarrow> string \<Rightarrow> RegexOption \<Rightarrow> exception + Regex" where
  "toRegex env word option =
     (if compiles env word then Inr (Regex word option) else Inl PatternSyntaxException)"

definition inflate :: "env \<Rightarrow> Context \<Rightarrow> VerseResultViewHolder" where
  "inflate env context = (verse_result_view env)\<lparr>view_context := context\<rparr>"

subsection \<open>Loops\<close>

text \<open>
  \<^verbatim>\<open>for (x in xs) body\<close> with a body that may raise: the state is passed through the
  iterations, and the first exception ends the loop. The range \<^verbatim>\<open>0 until n\<close> is the
  list \<open>[0..<n]\<close>, made once before the loop starts.
\<close>

fun for_in :: "'b list \<Rightarrow> ('b \<Rightarrow> 's \<Rightarrow> exception + 's) \<Rightarrow> 's \<Rightarrow> exception + 's" where
  "for_in [] body s = Inr s"
| "for_in (x # xs) body s =
     (case body x s of Inl e \<Rightarrow> Inl e | Inr s' \<Rightarrow> for_in xs body s')"

text \<open>Kotlin's \<^verbatim>\<open>fold(initial, operation)\<close>, left to right.\<close>

definition fold_kt :: "'b list \<Rightarrow> 'a \<Rightarrow> ('a \<Rightarrow> 'b \<Rightarrow> exception + 'a) \<Rightarrow> exception + 'a" where
  "fold_kt xs initial operation = for_in xs (\<lambda>x acc. operation acc x) initial"

subsection \<open>The adapter\<close>

text \<open>The adapter's state: the backing field of \<^verbatim>\<open>data\<close>, and how many times
  \<^verbatim>\<open>notifyDataSetChanged()\<close> has been called.\<close>

record VerseResultAdapter =
  data :: "VerseResult list"
  dataSetChanged :: nat

definition notifyDataSetChanged :: "VerseResultAdapter \<Rightarrow> VerseResultAdapter" where
  "notifyDataSetChanged a = a\<lparr>dataSetChanged := Suc (dataSetChanged a)\<rparr>"

text \<open>The setter of \<^verbatim>\<open>data\<close>, lines 127-131.\<close>

definition set_data :: "VerseResult list \<Rightarrow> VerseResultAdapter \<Rightarrow> VerseResultAdapter" where
  "set_data v a = notifyDataSetChanged (a\<lparr>data := v\<rparr>)"

definition getItemCount :: "VerseResultAdapter \<Rightarrow> nat" where
  "getItemCount a = length (data a)"

text \<open>
  \<^verbatim>\<open>setButtonStyle\<close>, lines 217-223: both branches set the text appearance, through
  the two overloads of \<^verbatim>\<open>setTextAppearance\<close>.
\<close>

definition setButtonStyle :: "env \<Rightarrow> Button \<Rightarrow> R_style \<Rightarrow> Button" where
  "setButtonStyle env btn style =
     (if SDK_INT env < 23 then btn\<lparr>textAppearance := Some style\<rparr>
      else btn\<lparr>textAppearance := Some style\<rparr>)"

text \<open>The transform of lines 178-183, applied to the matched text \<^verbatim>\<open>it.value\<close>.\<close>

definition highlight :: "Context \<Rightarrow> string \<Rightarrow> string" where
  "highlight context v =
     ''<b><font color='' @ [CHR 0x27] @ Int_toString (getColor_ibTextHighlight context) @
     [CHR 0x27] @ '' >'' @ v @ ''</font></b>''"

text \<open>\<^verbatim>\<open>getHighlightedText\<close>, lines 169-187, with the index given.\<close>

definition getHighlightedText ::
  "env \<Rightarrow> Context \<Rightarrow> VerseResult \<Rightarrow> int \<Rightarrow> exception + CharSequence" where
  "getHighlightedText env context item idx =
     (case getText item idx of
        Inl e \<Rightarrow> Inl e
      | Inr initial \<Rightarrow>
          (case fold_kt (highlightsList item) initial
                  (\<lambda>text word.
                     case toRegex env word IGNORE_CASE of
                       Inl e \<Rightarrow> Inl e
                     | Inr re \<Rightarrow> Inr (replace env re text (highlight context))) of
             Inl e \<Rightarrow> Inl e
           | Inr html \<Rightarrow> Inr (fromHtml html FROM_HTML_MODE_LEGACY)))"

text \<open>The call without the index: the default argument of line 172.\<close>

definition getHighlightedText_default ::
  "env \<Rightarrow> Context \<Rightarrow> VerseResult \<Rightarrow> exception + CharSequence" where
  "getHighlightedText_default env context item =
     getHighlightedText env context item (topTranslationValue item)"

text \<open>The body of the first loop of \<^verbatim>\<open>onBindViewHolder\<close>, lines 144-151.\<close>

definition bind_style ::
  "env \<Rightarrow> VerseResult \<Rightarrow> nat \<Rightarrow> VerseResultViewHolder \<Rightarrow> exception + VerseResultViewHolder" where
  "bind_style env item t holder =
     (case as_Button (getChildAt holder t) of
        Inl e \<Rightarrow> Inl e
      | Inr btn \<Rightarrow>
          Inr (set_child holder t
                 (setButtonStyle env btn
                    (if int t = topTranslationValue item then ibButtonBold else ibButton))))"

text \<open>The body of the second loop, lines 155-165: the listener is kept as its closure,
  the item and the index it captured.\<close>

definition bind_listener ::
  "VerseResult \<Rightarrow> nat \<Rightarrow> VerseResultViewHolder \<Rightarrow> exception + VerseResultViewHolder" where
  "bind_listener item t holder =
     (case as_Button (getChildAt holder t) of
        Inl e \<Rightarrow> Inl e
      | Inr btn \<Rightarrow>
          Inr (set_child holder t (btn\<lparr>onClickListener := Some (TranslationClick item t)\<rparr>)))"

text \<open>\<^verbatim>\<open>onBindViewHolder\<close>, lines 135-167.\<close>

definition onBindViewHolder ::
  "env \<Rightarrow> VerseResultAdapter \<Rightarrow> VerseResultViewHolder \<Rightarrow> int \<Rightarrow>
     exception + VerseResultViewHolder" where
  "onBindViewHolder env a holder position =
     (case get (data a) position of
        Inl e \<Rightarrow> Inl e
      | Inr item \<Rightarrow>
          (let holder = holder\<lparr>verseTitle :=
                 getBookName env (key_book (vkey item)) @ '' '' @
                 Int_toString (key_chapter (vkey item)) @ '':'' @
                 Int_toString (key_verse (vkey item))\<rparr>
           in case getHighlightedText_default env (view_context holder) item of
                Inl e \<Rightarrow> Inl e
              | Inr spanned \<Rightarrow>
                  (let holder = holder\<lparr>verseText := spanned\<rparr>
                   in case for_in [0..<childCount holder] (bind_style env item) holder of
                        Inl e \<Rightarrow> Inl e
                      | Inr holder \<Rightarrow>
                          for_in [0..<childCount holder] (bind_listener item) holder)))"

text \<open>The body of the loop inside the listener, lines 158-163.\<close>

definition click_plain ::
  "env \<Rightarrow> nat \<Rightarrow> VerseResultViewHolder \<Rightarrow> exception + VerseResultViewHolder" where
  "click_plain env t holder =
     (case as_Button (getChildAt holder t) of
        Inl e \<Rightarrow> Inl e
      | Inr btn \<Rightarrow> Inr (set_child holder t (setButtonStyle env btn ibButton)))"

text \<open>
  The listener of lines 156-165, for the closure that captured \<open>item\<close> and \<open>t\<close>. The
  captured \<^verbatim>\<open>btn\<close> is the button that was the \<open>t\<close>-th child when the listener
  was set, so the last statement writes to the \<open>t\<close>-th child; after the loop before it
  every child is a button.
\<close>

definition onClick ::
  "env \<Rightarrow> VerseResult \<Rightarrow> nat \<Rightarrow> VerseResultViewHolder \<Rightarrow> exception + VerseResultViewHolder" where
  "onClick env item t holder =
     (case getHighlightedText env (view_context holder) item (int t) of
        Inl e \<Rightarrow> Inl e
      | Inr spanned \<Rightarrow>
          (let holder = holder\<lparr>verseText := spanned\<rparr>
           in case for_in [0..<childCount holder] (click_plain env) holder of
                Inl e \<Rightarrow> Inl e
              | Inr holder \<Rightarrow>
                  (case getChildAt holder t of
                     Some (Btn btn) \<Rightarrow> Inr (set_child holder t (setButtonStyle env btn ibButtonBold))
                   | _ \<Rightarrow> Inr holder)))"

text \<open>A click on the \<open>i\<close>-th child runs the listener set on it, if there is one.\<close>

definition performClick ::
  "env \<Rightarrow> VerseResultViewHolder \<Rightarrow> nat \<Rightarrow> exception + VerseResultViewHolder" where
  "performClick env holder i =
     (case getChildAt holder i of
        Some (Btn btn) \<Rightarrow>
          (case onClickListener btn of
             Some (TranslationClick item t) \<Rightarrow> onClick env item t holder
           | None \<Rightarrow> Inr holder)
      | _ \<Rightarrow> Inr holder)"

text \<open>\<^verbatim>\<open>Button(view.context)\<close>: a button with nothing set.\<close>

definition new_Button :: Button where
  "new_Button =
     \<lparr>btn_text = [], textAppearance = None, background_null = False,
      minWidth = None, minimumWidth = None, minHeight = None, minimumHeight = None,
      padding = None, layoutParams = None, translation_tag = None, onClickListener = None\<rparr>"

text \<open>The body of the loop of \<^verbatim>\<open>onCreateViewHolder\<close>, lines 195-211.\<close>

definition create_button :: "env \<Rightarrow> nat \<Rightarrow> VerseResultViewHolder \<Rightarrow> VerseResultViewHolder" where
  "create_button env t view =
     (let btn = new_Button;
          btn = btn\<lparr>btn_text := getTranslationLabel env (int t)\<rparr>;
          btn = setButtonStyle env btn ibButton;
          btn = btn\<lparr>background_null := True\<rparr>;
          btn = btn\<lparr>minWidth := Some 0\<rparr>;
          btn = btn\<lparr>minimumWidth := Some 0\<rparr>;
          btn = btn\<lparr>minHeight := Some 0\<rparr>;
          btn = btn\<lparr>minimumHeight := Some 0\<rparr>;
          btn = btn\<lparr>padding := Some (0, 0, 0, 0)\<rparr>;
          marginParams = \<lparr>lp_width = WRAP_CONTENT, lp_height = WRAP_CONTENT, margins = (0, 0, 0, 0)\<rparr>;
          marginParams = marginParams\<lparr>margins := (0, 0, 10, 0)\<rparr>;
          btn = btn\<lparr>layoutParams := Some marginParams\<rparr>;
          btn = btn\<lparr>translation_tag := Some (int t)\<rparr>
      in addView view (Btn btn))"

text \<open>\<^verbatim>\<open>onCreateViewHolder\<close>, lines 189-215.\<close>

definition onCreateViewHolder :: "env \<Rightarrow> Context \<Rightarrow> VerseResultViewHolder" where
  "onCreateViewHolder env parent_context =
     fold (create_button env) [0..<nat (TOTAL_VALUE env)] (inflate env parent_context)"

subsection \<open>Predicates on holders\<close>

definition is_Button :: "View \<Rightarrow> bool" where
  "is_Button v = (case v of Btn b \<Rightarrow> True | NotAButton \<Rightarrow> False)"

text \<open>The text appearance of the \<open>t\<close>-th child, when it is a button.\<close>

definition appearance_at :: "VerseResultViewHolder \<Rightarrow> nat \<Rightarrow> R_style option" where
  "appearance_at holder t =
     (case getChildAt holder t of Some (Btn b) \<Rightarrow> textAppearance b | _ \<Rightarrow> None)"

text \<open>The indices of the children that are in the bold style, in order.\<close>

definition bold_buttons :: "VerseResultViewHolder \<Rightarrow> nat list" where
  "bold_buttons holder =
     filter (\<lambda>t. appearance_at holder t = Some ibButtonBold) [0..<childCount holder]"

text \<open>Every child is a button whose listener is the closure for \<open>item\<close> and its index.\<close>

definition listening :: "VerseResult \<Rightarrow> VerseResultViewHolder \<Rightarrow> bool" where
  "listening item holder =
     list_all
       (\<lambda>t. case getChildAt holder t of
               Some (Btn b) \<Rightarrow> onClickListener b = Some (TranslationClick item t)
             | _ \<Rightarrow> False)
       [0..<childCount holder]"

text \<open>
  A holder bound to \<open>item\<close>: \<^verbatim>\<open>onBindViewHolder\<close> has completed on it for a position
  that holds \<open>item\<close>, and since then it has seen only clicks that completed.
\<close>

inductive bound :: "env \<Rightarrow> VerseResult \<Rightarrow> VerseResultViewHolder \<Rightarrow> bool" for env where
  bind: "get (data a) position = Inr item \<Longrightarrow>
         onBindViewHolder env a holder position = Inr holder' \<Longrightarrow> bound env item holder'"
| click: "bound env item holder \<Longrightarrow> performClick env holder i = Inr holder' \<Longrightarrow>
          bound env item holder'"

text \<open>
  A loop body that rewrites the button at \<open>t\<close> with \<open>g t\<close>, and the children after
  the first \<open>k\<close> iterations of such a loop.
\<close>

definition button_loop ::
  "(nat \<Rightarrow> Button \<Rightarrow> Button) \<Rightarrow> nat \<Rightarrow> VerseResultViewHolder \<Rightarrow> exception + VerseResultViewHolder" where
  "button_loop g t holder =
     (case as_Button (getChildAt holder t) of
        Inl e \<Rightarrow> Inl e
      | Inr btn \<Rightarrow> Inr (set_child holder t (g t btn)))"

definition on_button :: "(Button \<Rightarrow> Button) \<Rightarrow> View \<Rightarrow> View" where
  "on_button g v = (case v of Btn b \<Rightarrow> Btn (g b) | NotAButton \<Rightarrow> NotAButton)"

definition each_button :: "(nat \<Rightarrow> Button \<Rightarrow> Button) \<Rightarrow> nat \<Rightarrow> View list \<Rightarrow> View list" where
  "each_button g k cs =
     map (\<lambda>i. if i < k then on_button (g i) (cs ! i) else cs ! i) [0..<length cs]"

text \<open>The title and the buttons that a completed \<^verbatim>\<open>onBindViewHolder\<close> leaves.\<close>

definition verse_title :: "env \<Rightarrow> VerseResult \<Rightarrow> string" where
  "verse_title env item =
     getBookName env (key_book (vkey item)) @ '' '' @
     Int_toString (key_chapter (vkey item)) @ '':'' @ Int_toString (key_verse (vkey item))"

definition bound_button :: "VerseResult \<Rightarrow> nat \<Rightarrow> Button \<Rightarrow> Button" where
  "bound_button item i btn =
     btn\<lparr>textAppearance :=
           Some (if int i = topTranslationValue item then ibButtonBold else ibButton),
         onClickListener := Some (TranslationClick item i)\<rparr>"

definition clicked_button :: "nat \<Rightarrow> nat \<Rightarrow> Button \<Rightarrow> Button" where
  "clicked_button t i btn = btn\<lparr>textAppearance := Some (if i = t then ibButtonBold else ibButton)\<rparr>"

text \<open>The button that one iteration of the loop of \<^verbatim>\<open>onCreateViewHolder\<close> adds.\<close>

definition translation_button :: "env \<Rightarrow> nat \<Rightarrow> Button" where
  "translation_button env t =
     \<lparr>btn_text = getTranslationLabel env (int t), textAppearance = Some ibButton,
      background_null = True, minWidth = Some 0, minimumWidth = Some 0, minHeight = Some 0,
      minimumHeight = Some 0, padding = Some (0, 0, 0, 0),
      layoutParams = Some \<lparr>lp_width = WRAP_CONTENT, lp_height = WRAP_CONTENT, margins = (0, 0, 10, 0)\<rparr>,
      translation_tag = Some (int t), onClickListener = None\<rparr>"

subsection \<open>The highlighted text in the words of the specification\<close>

text \<open>
  The raw text of the translation, rewritten once for each highlight word in the order
  of the list: every match of the word, taken as a case-insensitive regular expression,
  is replaced by the matched text inside a bold, coloured font element; the result is
  parsed as HTML in the legacy mode.
\<close>

definition wrap_match :: "int \<Rightarrow> string \<Rightarrow> string" where
  "wrap_match color m =
     ''<b><font color='' @ [CHR 0x27] @ Int_toString color @ [CHR 0x27] @ '' >'' @ m @
     ''</font></b>''"

definition highlighted_html :: "env \<Rightarrow> int \<Rightarrow> string list \<Rightarrow> string \<Rightarrow> string" where
  "highlighted_html env color ws raw =
     foldl (\<lambda>text w. replace env (Regex w IGNORE_CASE) text (wrap_match color)) raw ws"

subsection \<open>A concrete environment\<close>

text \<open>
  An environment to run the adapter in: three translations, and a regular expression
  engine cut down to words without metacharacters, which match themselves up to the
  case of ASCII letters.
\<close>

definition toLowerCase :: "char \<Rightarrow> char" where
  "toLowerCase c =
     (case map_of (zip ''ABCDEFGHIJKLMNOPQRSTUVWXYZ'' ''abcdefghijklmnopqrstuvwxyz'') c of
        None \<Rightarrow> c
      | Some l \<Rightarrow> l)"

definition matches_at :: "string \<Rightarrow> string \<Rightarrow> bool" where
  "matches_at w s =
     (length w \<le> length s \<and> map toLowerCase (take (length w) s) = map toLowerCase w)"

function replace_literal :: "string \<Rightarrow> (string \<Rightarrow> string) \<Rightarrow> string \<Rightarrow> string" where
  "replace_literal w f [] = []"
| "replace_literal w f (c # cs) =
     (if w \<noteq> [] \<and> matches_at w (c # cs)
      then f (take (length w) (c # cs)) @ replace_literal w f (drop (length w) (c # cs))
      else c # replace_literal w f cs)"
  by pat_completeness auto
termination
  by (relation "measure (\<lambda>(w, f, s). length s)") auto

definition sample_env :: env where
  "sample_env =
     \<lparr>SDK_INT = 29,
      TOTAL_VALUE = 3,
      getTranslationLabel = (\<lambda>t. if t = 0 then ''KJV'' else if t = 1 then ''NET'' else ''BSB''),
      getBookName = (\<lambda>b. if b = 18 then ''Psalms'' else ''Genesis''),
      compiles = (\<lambda>w. w \<noteq> [] \<and> list_all (\<lambda>c. c \<notin> set (CHR 0x5C # ''^$.|?*+()[]{}'')) w),
      replace = (\<lambda>re text f. case re of Regex w option \<Rightarrow> replace_literal w f text),
      verse_result_view =
        \<lparr>view_context = \<lparr>ibTextHighlight = 0\<rparr>, verseTitle = [], verseText = Str [],
         translationsHolder = []\<rparr>\<rparr>"

definition red :: Context where
  "red = \<lparr>ibTextHighlight = - 65536\<rparr>"

definition psalm :: VerseResult where
  "psalm =
     \<lparr>vkey = \<lparr>key_book = 18, key_chapter = 23, key_verse = 1\<rparr>,
      topTranslationValue = 1,
      textList = [''The LORD is my shepherd'', ''The Lord is my shepherd'', ''Yahweh is my shepherd''],
      highlightsList = [''lord'', ''my'']\<rparr>"

definition sample_adapter :: VerseResultAdapter where
  "sample_adapter = \<lparr>data = [psalm], dataSetChanged = 1\<rparr>"

definition sample_holder :: VerseResultViewHolder where
  "sample_holder = onCreateViewHolder sample_env red"

text \<open>The sample holder after it was bound to the psalm at position 0.\<close>

definition sample_bound :: VerseResultViewHolder where
  "sample_bound =
     \<lparr>view_context = red, verseTitle = ''Psalms 23:1'',
      verseText =
        Spanned
          (''The '' @ wrap_match (- 65536) ''Lord'' @ '' is '' @ wrap_match (- 65536) ''my'' @
           '' shepherd'')
          FROM_HTML_MODE_LEGACY,
      translationsHolder =
        [Btn (bound_button psalm 0 (translation_button sample_env 0)),
         Btn (bound_button psalm 1 (translation_button sample_env 1)),
         Btn (bound_button psalm 2 (translation_button sample_env 2))]\<rparr>"

section \<open>Properties of the header\<close>

lemma keyup_mount:
  "keyup e (mount inp p) =
     fold run_listener
       (keyup_listeners p @ [handler_focus_listener, handler_reset_listener]) (e, mount inp p)"
  by (simp add: keyup_def mount_def addEventListener_def)

lemma handler_focus_dispatched: "dispatched (snd (handler_focus e p)) = dispatched p"
  by (simp add: handler_focus_def focus_def split: option.split)

lemma handler_focus_key: "key (fst (handler_focus e p)) = key e"
  by (simp add: handler_focus_def preventDefault_def split: option.split)




text \<open>
  C4: a keyup of \<^verbatim>\<open>Escape\<close> makes the handler dispatch \<^verbatim>\<open>doReset()\<close>, whatever
  the target of the event; and on a document that holds the listeners of the mounted
  header only, the event dispatches exactly that one action.
\<close>

theorem handler_reset_escape:
  "key e = ''Escape'' \<Longrightarrow>
     handler_reset e p = (e, p\<lparr>dispatched := dispatched p @ [doReset]\<rparr>) \<and>
     (keyup_listeners p = [] \<longrightarrow>
        dispatched (snd (keyup e (mount inp p))) = dispatched p @ [doReset])"
proof (intro conjI impI)
  assume k: "key e = ''Escape''"
  show "handler_reset e p = (e, p\<lparr>dispatched := dispatched p @ [doReset]\<rparr>)"
    using k by (simp add: handler_reset_def dispatch_def)
  assume "keyup_listeners p = []"
  then have "keyup e (mount inp p) =
      handler_reset (fst (handler_focus e (mount inp p))) (snd (handler_focus e (mount inp p)))"
    by (cases "handler_focus e (mount inp p)") (simp add: keyup_mount)
  moreover have "dispatched (mount inp p) = dispatched p"
    by (simp add: mount_def addEventListener_def)
  ultimately show "dispatched (snd (keyup e (mount inp p))) = dispatched p @ [doReset]"
    using k by (simp add: handler_reset_def dispatch_def handler_focus_key handler_focus_dispatched)
qed

theorem handler_reset_escape_witness:
  "handler_reset \<lparr>key = ''Escape'', target = 7, defaultPrevented = False\<rparr>
     \<lparr>inputRef_current = None, activeElement = None,
      keyup_listeners = [], dispatched = [doSearch ''love'']\<rparr>
   = (\<lparr>key = ''Escape'', target = 7, defaultPrevented = False\<rparr>,
      \<lparr>inputRef_current = None, activeElement = None,
       keyup_listeners = [], dispatched = [doSearch ''love'', doReset]\<rparr>) \<and>
   dispatched (snd (keyup \<lparr>key = ''Escape'', target = 7, defaultPrevented = False\<rparr>
     (mount 7 \<lparr>inputRef_current = None, activeElement = None,
        keyup_listeners = [], dispatched = [doSearch ''love'']\<rparr>)))
   = [doSearch ''love'', doReset]"
  using handler_reset_escape
    [of "\<lparr>key = ''Escape'', target = 7, defaultPrevented = False\<rparr>"
        "\<lparr>inputRef_current = None, activeElement = None,
          keyup_listeners = [], dispatched = [doSearch ''love'']\<rparr>" 7]
  by simp

text \<open>
  C7: the input is controlled by the store. Its displayed value is the query the
  component read with \<^verbatim>\<open>useQuery\<close>, its change handler is \<^verbatim>\<open>handleChange\<close>, and
  \<^verbatim>\<open>handleChange\<close> dispatches \<^verbatim>\<open>doSearch\<close> of the input's current value and
  nothing else.
\<close>

theorem input_controlled:
  "input_value (input (Header query dirty)) = query \<and>
   onChange (input (Header query dirty)) e p = p\<lparr>dispatched := dispatched p @ [doSearch (currentTarget_value e)]\<rparr>"
  by (simp add: Header_def handleChange_def dispatch_def)

section \<open>Properties of the adapter\<close>

subsection \<open>Loops over the children\<close>

lemma for_in_append:
  "for_in (xs @ ys) body s =
     (case for_in xs body s of Inl e \<Rightarrow> Inl e | Inr s' \<Rightarrow> for_in ys body s')"
  by (induction xs arbitrary: s) (auto split: sum.splits)

lemma length_each_button: "length (each_button g k cs) = length cs"
  by (simp add: each_button_def)

lemma each_button_0: "each_button g 0 cs = cs"
  by (simp add: each_button_def map_nth)

lemma each_button_nth:
  "i < length cs \<Longrightarrow>
     each_button g k cs ! i = (if i < k then on_button (g i) (cs ! i) else cs ! i)"
  by (simp add: each_button_def)

lemma each_button_Suc:
  "k < length cs \<Longrightarrow> cs ! k = Btn b \<Longrightarrow>
     (each_button g k cs)[k := Btn (g k b)] = each_button g (Suc k) cs"
  by (rule nth_equalityI)
     (auto simp: length_each_button each_button_nth on_button_def nth_list_update less_Suc_eq)

lemma is_Button_iff: "is_Button v \<longleftrightarrow> (\<exists>b. v = Btn b)"
  by (cases v) (simp_all add: is_Button_def)

lemma button_loop_step:
  assumes "k < length (translationsHolder h)" and "translationsHolder h ! k = Btn b"
  shows "button_loop g k (h\<lparr>translationsHolder := each_button g k (translationsHolder h)\<rparr>) =
           Inr (h\<lparr>translationsHolder := each_button g (Suc k) (translationsHolder h)\<rparr>)"
  using assms
  by (simp add: button_loop_def getChildAt_def set_child_def length_each_button
      each_button_nth each_button_Suc)

lemma button_loop_stuck:
  assumes "k < length (translationsHolder h)" and "translationsHolder h ! k = NotAButton"
  shows "button_loop g k (h\<lparr>translationsHolder := each_button g k (translationsHolder h)\<rparr>) =
           Inl ClassCastException"
  using assms
  by (simp add: button_loop_def getChildAt_def length_each_button each_button_nth)

lemma button_loop_prefix:
  "k \<le> length (translationsHolder h) \<Longrightarrow>
   \<forall>i<k. is_Button (translationsHolder h ! i) \<Longrightarrow>
     for_in [0..<k] (button_loop g) h =
       Inr (h\<lparr>translationsHolder := each_button g k (translationsHolder h)\<rparr>)"
proof (induction k)
  case 0
  show ?case by (simp add: each_button_0)
next
  case (Suc k)
  from Suc.prems obtain b where b: "translationsHolder h ! k = Btn b"
    by (auto simp: is_Button_iff)
  have k: "k < length (translationsHolder h)"
    using Suc.prems by simp
  have "for_in [0..<k] (button_loop g) h =
      Inr (h\<lparr>translationsHolder := each_button g k (translationsHolder h)\<rparr>)"
    using Suc by simp
  then show ?case
    by (simp add: for_in_append button_loop_step [OF k b])
qed

lemma each_button_all:
  "each_button g (length cs) cs = map (\<lambda>i. on_button (g i) (cs ! i)) [0..<length cs]"
  by (simp add: each_button_def)

lemma button_loop_all:
  assumes "list_all is_Button (translationsHolder h)"
  shows "for_in [0..<childCount h] (button_loop g) h =
           Inr (h\<lparr>translationsHolder :=
                  map (\<lambda>i. on_button (g i) (translationsHolder h ! i)) [0..<childCount h]\<rparr>)"
proof -
  have "\<forall>i<length (translationsHolder h). is_Button (translationsHolder h ! i)"
    using assms by (simp add: list_all_length)
  then show ?thesis
    using button_loop_prefix [of "length (translationsHolder h)" h g]
    by (simp add: childCount_def each_button_all)
qed

lemma button_loop_fail:
  assumes "\<not> list_all is_Button (translationsHolder h)"
  shows "for_in [0..<childCount h] (button_loop g) h = Inl ClassCastException"
proof -
  let ?cs = "translationsHolder h"
  let ?P = "\<lambda>i. i < length ?cs \<and> \<not> is_Button (?cs ! i)"
  from assms have "\<exists>i. ?P i"
    by (auto simp: list_all_length)
  then obtain k where k: "?P k" and least: "\<forall>i<k. \<not> ?P i"
    using exists_least_iff [of ?P] by blast
  from k have nb: "?cs ! k = NotAButton"
    by (cases "?cs ! k") (simp_all add: is_Button_def)
  from least k have before: "\<forall>i<k. is_Button (?cs ! i)"
    by auto
  have split: "[0..<length ?cs] = [0..<k] @ k # [Suc k..<length ?cs]"
  proof -
    have "[0..<k + (length ?cs - k)] = [0..<k] @ [k..<k + (length ?cs - k)]"
      by (rule upt_add_eq_append) simp
    then show ?thesis
      using k by (simp add: upt_conv_Cons)
  qed
  have "for_in [0..<k] (button_loop g) h = Inr (h\<lparr>translationsHolder := each_button g k ?cs\<rparr>)"
    using button_loop_prefix [of k h g] k before by simp
  then show ?thesis
    using k nb by (simp add: childCount_def split for_in_append button_loop_stuck)
qed

lemma bind_style_loop:
  "bind_style env item =
     button_loop (\<lambda>t btn. setButtonStyle env btn
        (if int t = topTranslationValue item then ibButtonBold else ibButton))"
  by (intro ext) (simp add: bind_style_def button_loop_def)

lemma bind_listener_loop:
  "bind_listener item =
     button_loop (\<lambda>t btn. btn\<lparr>onClickListener := Some (TranslationClick item t)\<rparr>)"
  by (intro ext) (simp add: bind_listener_def button_loop_def)

lemma click_plain_loop:
  "click_plain env = button_loop (\<lambda>t btn. setButtonStyle env btn ibButton)"
  by (intro ext) (simp add: click_plain_def button_loop_def)

lemma setButtonStyle_eq: "setButtonStyle env btn style = btn\<lparr>textAppearance := Some style\<rparr>"
  by (simp add: setButtonStyle_def)

subsection \<open>The highlighted text\<close>

lemma highlight_wrap_match: "highlight context = wrap_match (ibTextHighlight context)"
  by (intro ext) (simp add: highlight_def wrap_match_def getColor_ibTextHighlight_def)

lemma fold_kt_compiled:
  "list_all (compiles env) ws \<Longrightarrow>
     fold_kt ws acc
       (\<lambda>text word. case toRegex env word IGNORE_CASE of
                       Inl e \<Rightarrow> Inl e
                     | Inr re \<Rightarrow> Inr (replace env re text f)) =
     Inr (foldl (\<lambda>text w. replace env (Regex w IGNORE_CASE) text f) acc ws)"
  unfolding fold_kt_def
  by (induction ws arbitrary: acc) (simp_all add: toRegex_def)

lemma fold_kt_rejected:
  "\<not> list_all (compiles env) ws \<Longrightarrow>
     fold_kt ws acc
       (\<lambda>text word. case toRegex env word IGNORE_CASE of
                       Inl e \<Rightarrow> Inl e
                     | Inr re \<Rightarrow> Inr (replace env re text f)) =
     Inl PatternSyntaxException"
  unfolding fold_kt_def
  by (induction ws arbitrary: acc) (auto simp: toRegex_def)

lemma getHighlightedText_eq:
  "getHighlightedText env context item idx =
     (if \<not> (0 \<le> idx \<and> idx < int (length (textList item))) then Inl IndexOutOfBoundsException
      else if \<not> list_all (compiles env) (highlightsList item) then Inl PatternSyntaxException
      else Inr (Spanned
                  (highlighted_html env (ibTextHighlight context) (highlightsList item)
                     (textList item ! nat idx))
                  FROM_HTML_MODE_LEGACY))"
  by (simp add: getHighlightedText_def getText_def fold_kt_compiled fold_kt_rejected
      highlight_wrap_match highlighted_html_def fromHtml_def)

subsection \<open>Binding and clicking\<close>

lemma on_button_is_Button: "is_Button (on_button g v) = is_Button v"
  by (cases v) (simp_all add: on_button_def is_Button_def)

lemma list_all_on_buttons:
  "list_all is_Button cs \<Longrightarrow>
     list_all is_Button (map (\<lambda>i. on_button (g i) (cs ! i)) [0..<length cs])"
  by (simp add: list_all_length on_button_is_Button)

lemma on_button_twice: "on_button g (on_button f v) = on_button (\<lambda>b. g (f b)) v"
  by (cases v) (simp_all add: on_button_def)

lemma map_on_buttons_twice:
  "map (\<lambda>i. on_button (g i) (map (\<lambda>i. on_button (f i) (cs ! i)) [0..<length cs] ! i)) [0..<length cs] =
   map (\<lambda>i. on_button (\<lambda>b. g i (f i b)) (cs ! i)) [0..<length cs]"
  by (rule nth_equalityI) (simp_all add: on_button_twice)

lemma onBindViewHolder_eq:
  "onBindViewHolder env a holder position =
     (case get (data a) position of
        Inl e \<Rightarrow> Inl e
      | Inr item \<Rightarrow>
          (case getHighlightedText env (view_context holder) item (topTranslationValue item) of
             Inl e \<Rightarrow> Inl e
           | Inr spanned \<Rightarrow>
               if list_all is_Button (translationsHolder holder)
               then Inr (holder\<lparr>verseTitle := verse_title env item, verseText := spanned,
                           translationsHolder :=
                             map (\<lambda>i. on_button (bound_button item i) (translationsHolder holder ! i))
                               [0..<childCount holder]\<rparr>)
               else Inl ClassCastException))"
proof (cases "get (data a) position")
  case (Inl e)
  then show ?thesis by (simp add: onBindViewHolder_def)
next
  case (Inr item)
  show ?thesis
  proof (cases "getHighlightedText env (view_context holder) item (topTranslationValue item)")
    case (Inl e)
    with Inr show ?thesis
      by (simp add: onBindViewHolder_def getHighlightedText_default_def)
  next
    case sp: (Inr spanned)
    let ?h0 = "holder\<lparr>verseTitle := verse_title env item, verseText := spanned\<rparr>"
    let ?g1 = "\<lambda>t btn. setButtonStyle env btn
                 (if int t = topTranslationValue item then ibButtonBold else ibButton)"
    let ?g2 = "\<lambda>t btn. btn\<lparr>onClickListener := Some (TranslationClick item t)\<rparr>"
    let ?cs = "translationsHolder holder"
    have unfold: "onBindViewHolder env a holder position =
        (case for_in [0..<childCount ?h0] (button_loop ?g1) ?h0 of
           Inl e \<Rightarrow> Inl e
         | Inr h \<Rightarrow> for_in [0..<childCount h] (button_loop ?g2) h)"
      unfolding onBindViewHolder_def bind_style_loop bind_listener_loop
      using Inr sp
      by (simp add: getHighlightedText_default_def verse_title_def childCount_def)
    show ?thesis
    proof (cases "list_all is_Button ?cs")
      case False
      then have "for_in [0..<childCount ?h0] (button_loop ?g1) ?h0 = Inl ClassCastException"
        by (intro button_loop_fail) simp
      with Inr sp False unfold show ?thesis by simp
    next
      case True
      let ?cs1 = "map (\<lambda>i. on_button (?g1 i) (?cs ! i)) [0..<length ?cs]"
      let ?h1 = "?h0\<lparr>translationsHolder := ?cs1\<rparr>"
      have one: "for_in [0..<childCount ?h0] (button_loop ?g1) ?h0 = Inr ?h1"
        using button_loop_all [of ?h0 ?g1] True by (simp add: childCount_def)
      have "list_all is_Button (translationsHolder ?h1)"
        using True by (simp add: list_all_on_buttons)
      then have two: "for_in [0..<childCount ?h1] (button_loop ?g2) ?h1 =
          Inr (?h1\<lparr>translationsHolder :=
                 map (\<lambda>i. on_button (?g2 i) (translationsHolder ?h1 ! i)) [0..<childCount ?h1]\<rparr>)"
        by (rule button_loop_all)
      have "map (\<lambda>i. on_button (?g2 i) (?cs1 ! i)) [0..<length ?cs] =
          map (\<lambda>i. on_button (bound_button item i) (?cs ! i)) [0..<length ?cs]"
        unfolding map_on_buttons_twice
        by (intro map_cong)
           (auto simp: setButtonStyle_eq bound_button_def on_button_def split: View.splits)
      with one two unfold Inr sp True show ?thesis
        by (simp add: childCount_def)
    qed
  qed
qed

lemma onClick_eq:
  "onClick env item t holder =
     (case getHighlightedText env (view_context holder) item (int t) of
        Inl e \<Rightarrow> Inl e
      | Inr spanned \<Rightarrow>
          if list_all is_Button (translationsHolder holder)
          then Inr (holder\<lparr>verseText := spanned,
                      translationsHolder :=
                        map (\<lambda>i. on_button (clicked_button t i) (translationsHolder holder ! i))
                          [0..<childCount holder]\<rparr>)
          else Inl ClassCastException)"
proof (cases "getHighlightedText env (view_context holder) item (int t)")
  case (Inl e)
  then show ?thesis by (simp add: onClick_def)
next
  case sp: (Inr spanned)
  let ?h0 = "holder\<lparr>verseText := spanned\<rparr>"
  let ?g = "\<lambda>t btn. setButtonStyle env btn ibButton"
  let ?cs = "translationsHolder holder"
  show ?thesis
  proof (cases "list_all is_Button ?cs")
    case False
    then have "for_in [0..<childCount ?h0] (button_loop ?g) ?h0 = Inl ClassCastException"
      by (intro button_loop_fail) simp
    with sp False show ?thesis
      by (simp add: onClick_def click_plain_loop)
  next
    case True
    let ?cs1 = "map (\<lambda>i. on_button (?g i) (?cs ! i)) [0..<length ?cs]"
    let ?h1 = "?h0\<lparr>translationsHolder := ?cs1\<rparr>"
    let ?cs2 = "map (\<lambda>i. on_button (clicked_button t i) (?cs ! i)) [0..<length ?cs]"
    have one: "for_in [0..<childCount ?h0] (button_loop ?g) ?h0 = Inr ?h1"
      using button_loop_all [of ?h0 ?g] True by (simp add: childCount_def)
    have last: "(case getChildAt ?h1 t of
                   Some (Btn btn) \<Rightarrow> Inr (set_child ?h1 t (setButtonStyle env btn ibButtonBold))
                 | _ \<Rightarrow> Inr ?h1) = Inr (?h0\<lparr>translationsHolder := ?cs2\<rparr>)"
    proof (cases "t < length ?cs")
      case False
      then have "?cs1 = ?cs2"
        by (intro map_cong)
           (auto simp: clicked_button_def setButtonStyle_eq on_button_def split: View.splits)
      with False show ?thesis
        by (simp add: getChildAt_def)
    next
      case t: True
      with True obtain b where b: "?cs ! t = Btn b"
        by (auto simp: list_all_length is_Button_iff)
      have "?cs1[t := Btn (setButtonStyle env (setButtonStyle env b ibButton) ibButtonBold)] = ?cs2"
        using t b
        by (intro nth_equalityI)
           (auto simp: nth_list_update clicked_button_def setButtonStyle_eq on_button_def
                 split: View.splits)
      with t b show ?thesis
        by (simp add: getChildAt_def set_child_def on_button_def)
    qed
    have "onClick env item t holder =
        (case getChildAt ?h1 t of
           Some (Btn btn) \<Rightarrow> Inr (set_child ?h1 t (setButtonStyle env btn ibButtonBold))
         | _ \<Rightarrow> Inr ?h1)"
      unfolding onClick_def click_plain_loop Let_def
      using sp one by simp
    also note last
    finally show ?thesis
      using sp True by (simp add: childCount_def)
  qed
qed

lemma listener_at:
  "(case getChildAt h t of
      Some (Btn b) \<Rightarrow> onClickListener b = Some l
    | _ \<Rightarrow> False) \<longleftrightarrow>
   (t < length (translationsHolder h) \<and>
    (\<exists>b. translationsHolder h ! t = Btn b \<and> onClickListener b = Some l))"
  by (cases "translationsHolder h ! t") (simp_all add: getChildAt_def)

lemma listening_iff:
  "listening item h \<longleftrightarrow>
     (\<forall>t<length (translationsHolder h).
        \<exists>b. translationsHolder h ! t = Btn b \<and> onClickListener b = Some (TranslationClick item t))"
  by (auto simp: listening_def list_all_iff childCount_def listener_at)

lemma listening_buttons: "listening item h \<Longrightarrow> list_all is_Button (translationsHolder h)"
  by (auto simp: listening_iff list_all_length is_Button_iff)

lemma bind_listening:
  assumes "get (data a) position = Inr item"
    and "onBindViewHolder env a holder position = Inr holder'"
  shows "listening item holder'"
proof -
  let ?cs = "translationsHolder holder"
  from assms have buttons: "list_all is_Button ?cs"
    and "translationsHolder holder' =
           map (\<lambda>i. on_button (bound_button item i) (?cs ! i)) [0..<length ?cs]"
    by (auto simp: onBindViewHolder_eq childCount_def split: sum.splits if_splits)
  then show ?thesis
    by (auto simp: listening_iff list_all_length is_Button_iff on_button_def bound_button_def)
qed

lemma performClick_listening:
  assumes "listening item h" and "t < childCount h"
  shows "performClick env h t =
           (case getHighlightedText env (view_context h) item (int t) of
              Inl e \<Rightarrow> Inl e
            | Inr spanned \<Rightarrow>
                Inr (h\<lparr>verseText := spanned,
                       translationsHolder :=
                         map (\<lambda>i. on_button (clicked_button t i) (translationsHolder h ! i))
                           [0..<childCount h]\<rparr>))"
proof -
  from assms obtain b where "translationsHolder h ! t = Btn b"
    and "onClickListener b = Some (TranslationClick item t)"
    by (auto simp: listening_iff childCount_def)
  with assms show ?thesis
    by (simp add: performClick_def getChildAt_def childCount_def onClick_eq listening_buttons
        split: sum.splits)
qed

lemma clicked_listening:
  assumes "listening item h"
  shows "listening item
           (h\<lparr>verseText := spanned,
              translationsHolder :=
                map (\<lambda>i. on_button (clicked_button t i) (translationsHolder h ! i))
                  [0..<childCount h]\<rparr>)"
  using assms
  by (auto simp: listening_iff childCount_def on_button_def clicked_button_def)

lemma click_listening:
  assumes "listening item h" and "performClick env h i = Inr h'"
  shows "listening item h'"
proof (cases "i < childCount h")
  case True
  with assms show ?thesis
    by (auto simp: performClick_listening clicked_listening split: sum.splits)
next
  case False
  with assms show ?thesis
    by (simp add: performClick_def getChildAt_def childCount_def)
qed

lemma bound_listening: "bound env item h \<Longrightarrow> listening item h"
  by (induction rule: bound.induct) (auto intro: bind_listening click_listening)

lemma filter_eq_upt: "t < n \<Longrightarrow> filter (\<lambda>i. i = t) [0..<n] = [t]"
  by (induction n) (auto simp: filter_empty_conv)

lemma appearance_clicked:
  assumes "list_all is_Button cs" and "i < length cs"
  shows "appearance_at
           (h\<lparr>verseText := spanned,
              translationsHolder := map (\<lambda>i. on_button (clicked_button t i) (cs ! i)) [0..<length cs]\<rparr>) i =
         Some (if i = t then ibButtonBold else ibButton)"
  using assms
  by (auto simp: appearance_at_def getChildAt_def list_all_length is_Button_iff on_button_def
      clicked_button_def)

lemma bold_buttons_clicked:
  assumes "list_all is_Button cs" and "t < length cs"
  shows "bold_buttons
           (h\<lparr>verseText := spanned,
              translationsHolder := map (\<lambda>i. on_button (clicked_button t i) (cs ! i)) [0..<length cs]\<rparr>) =
         [t]"
proof -
  let ?h = "h\<lparr>verseText := spanned,
     translationsHolder := map (\<lambda>i. on_button (clicked_button t i) (cs ! i)) [0..<length cs]\<rparr>"
  have "filter (\<lambda>i. appearance_at ?h i = Some ibButtonBold) [0..<length cs] =
        filter (\<lambda>i. i = t) [0..<length cs]"
    using assms(1) by (intro filter_cong) (auto simp: appearance_clicked)
  then show ?thesis
    using assms(2) by (simp add: bold_buttons_def childCount_def filter_eq_upt)
qed

lemma appearance_bound:
  assumes "list_all is_Button cs" and "i < length cs"
  shows "appearance_at
           (h\<lparr>verseTitle := title, verseText := spanned,
              translationsHolder := map (\<lambda>i. on_button (bound_button item i) (cs ! i)) [0..<length cs]\<rparr>) i =
         Some (if int i = topTranslationValue item then ibButtonBold else ibButton)"
  using assms
  by (auto simp: appearance_at_def getChildAt_def list_all_length is_Button_iff on_button_def
      bound_button_def)

subsection \<open>Creating a holder\<close>

lemma create_button_eq: "create_button env t view = addView view (Btn (translation_button env t))"
  by (simp add: create_button_def new_Button_def setButtonStyle_eq translation_button_def)

lemma fold_create_button:
  "fold (create_button env) [0..<n] h =
     h\<lparr>translationsHolder := translationsHolder h @ map (\<lambda>t. Btn (translation_button env t)) [0..<n]\<rparr>"
  by (induction n) (simp_all add: create_button_eq addView_def)

lemma onCreateViewHolder_eq:
  "onCreateViewHolder env parent_context =
     (verse_result_view env)
       \<lparr>view_context := parent_context,
        translationsHolder :=
          translationsHolder (verse_result_view env) @
          map (\<lambda>t. Btn (translation_button env t)) [0..<nat (TOTAL_VALUE env)]\<rparr>"
  by (simp add: onCreateViewHolder_def fold_create_button inflate_def)

subsection \<open>Values in the concrete environment\<close>

lemma string_of_nat_numeral:
  "string_of_nat (numeral k) =
     (if numeral k < (10::nat) then [digit_char (numeral k)]
      else string_of_nat (numeral k div 10) @ [digit_char (numeral k mod 10)])"
  by (rule string_of_nat.simps)

lemma string_of_nat_small: "string_of_nat 0 = ''0''" "string_of_nat (Suc 0) = ''1''"
  by (simp_all add: string_of_nat.simps digit_char_def)

lemmas eval_strings =
  string_of_nat_numeral string_of_nat_small digit_char_def Int_toString_def wrap_match_def
  highlighted_html_def sample_env_def matches_at_def toLowerCase_def red_def psalm_def

lemma sample_holder_eq:
  "sample_holder =
     \<lparr>view_context = red, verseTitle = [], verseText = Str [],
      translationsHolder =
        [Btn (translation_button sample_env 0), Btn (translation_button sample_env 1),
         Btn (translation_button sample_env 2)]\<rparr>"
proof -
  have "[0..<nat 3] = [0, 1, 2]"
    by (simp add: eval_nat_numeral)
  then show ?thesis
    by (simp add: sample_holder_def onCreateViewHolder_eq) (simp add: sample_env_def)
qed

lemma psalm_0:
  "highlighted_html sample_env (- 65536) [''lord'', ''my''] ''The LORD is my shepherd'' =
     ''The <b><font color='' @ [CHR 0x27] @ ''-65536'' @ [CHR 0x27] @ '' >LORD</font></b> is <b><font color='' @
     [CHR 0x27] @ ''-65536'' @ [CHR 0x27] @ '' >my</font></b> shepherd''"
  by (simp add: eval_strings)

lemma psalm_2:
  "highlighted_html sample_env (- 65536) [''lord'', ''my''] ''Yahweh is my shepherd'' =
     ''Yahweh is <b><font color='' @ [CHR 0x27] @ ''-65536'' @ [CHR 0x27] @ '' >my</font></b> shepherd''"
  by (simp add: eval_strings)

lemma psalm_1:
  "highlighted_html sample_env (- 65536) [''lord'', ''my''] ''The Lord is my shepherd'' =
     ''The '' @ wrap_match (- 65536) ''Lord'' @ '' is '' @ wrap_match (- 65536) ''my'' @ '' shepherd''"
  by (simp add: eval_strings)

lemma sample_compiles: "list_all (compiles sample_env) (highlightsList psalm)"
  by (simp add: sample_env_def psalm_def)

lemma sample_buttons: "list_all is_Button (translationsHolder sample_holder)"
  by (simp add: sample_holder_eq is_Button_def)

lemma sample_get: "get (data sample_adapter) 0 = Inr psalm"
  by (simp add: get_def sample_adapter_def)

lemma sample_text_1:
  "getHighlightedText sample_env red psalm 1 =
     Inr (Spanned
            (''The '' @ wrap_match (- 65536) ''Lord'' @ '' is '' @ wrap_match (- 65536) ''my'' @
             '' shepherd'')
            FROM_HTML_MODE_LEGACY)"
proof -
  have "textList psalm ! nat 1 = ''The Lord is my shepherd''"
    and "highlightsList psalm = [''lord'', ''my'']" and "length (textList psalm) = 3"
    by (simp_all add: psalm_def)
  then show ?thesis
    using sample_compiles psalm_1 by (simp add: getHighlightedText_eq red_def)
qed

lemma sample_text_2:
  "getHighlightedText sample_env red psalm 2 =
     Inr (Spanned (''Yahweh is '' @ wrap_match (- 65536) ''my'' @ '' shepherd'')
            FROM_HTML_MODE_LEGACY)"
proof -
  have "textList psalm ! nat 2 = ''Yahweh is my shepherd''"
    and "highlightsList psalm = [''lord'', ''my'']" and "length (textList psalm) = 3"
    by (simp_all add: psalm_def)
  moreover have
    "highlighted_html sample_env (- 65536) [''lord'', ''my''] ''Yahweh is my shepherd'' =
       ''Yahweh is '' @ wrap_match (- 65536) ''my'' @ '' shepherd''"
    by (simp add: eval_strings)
  ultimately show ?thesis
    using sample_compiles by (simp add: getHighlightedText_eq red_def)
qed

lemma sample_title: "verse_title sample_env psalm = ''Psalms 23:1''"
  by (simp add: verse_title_def eval_strings)

lemma sample_bind: "onBindViewHolder sample_env sample_adapter sample_holder 0 = Inr sample_bound"
proof -
  have top: "topTranslationValue psalm = 1"
    by (simp add: psalm_def)
  have ctx: "view_context sample_holder = red"
    by (simp add: sample_holder_eq)
  have "[0..<childCount sample_holder] = [0, 1, 2]"
    by (simp add: childCount_def sample_holder_eq eval_nat_numeral)
  then show ?thesis
    using sample_buttons
    by (simp add: onBindViewHolder_eq sample_get top ctx sample_text_1 sample_title)
       (simp add: sample_holder_eq sample_bound_def on_button_def)
qed

lemma sample_is_bound: "bound sample_env psalm sample_bound"
  using sample_get sample_bind by (rule bound.bind)

lemma sample_bound_count: "childCount sample_bound = 3"
  by (simp add: sample_bound_def childCount_def)

lemma sample_bound_context: "view_context sample_bound = red"
  by (simp add: sample_bound_def)

section \<open>The claims about the adapter\<close>

text \<open>
  C1: for every verse result and every index, the text that \<^verbatim>\<open>getHighlightedText\<close>
  gives is the raw text of that translation, folded over the highlight words in order
  (each word a case-insensitive regular expression, every match replaced by the matched
  text inside \<^verbatim>\<open><b><font color='...' >\<close> and \<^verbatim>\<open></font></b>\<close>) and then parsed as
  HTML in the legacy mode. An index outside the texts and a word the engine does not
  compile raise instead.
\<close>

theorem getHighlightedText_rewrites:
  "getHighlightedText env context item idx =
     (if 0 \<le> idx \<and> idx < int (length (textList item)) then
        if list_all (compiles env) (highlightsList item)
        then Inr (fromHtml
                    (highlighted_html env (getColor_ibTextHighlight context) (highlightsList item)
                       (textList item ! nat idx))
                    FROM_HTML_MODE_LEGACY)
        else Inl PatternSyntaxException
      else Inl IndexOutOfBoundsException)"
  by (simp add: getHighlightedText_eq fromHtml_def getColor_ibTextHighlight_def)

theorem getHighlightedText_rewrites_witness:
  "getHighlightedText sample_env red psalm 0 =
     Inr (Spanned
            (''The '' @ wrap_match (- 65536) ''LORD'' @ '' is '' @ wrap_match (- 65536) ''my'' @
             '' shepherd'')
            FROM_HTML_MODE_LEGACY)"
proof -
  have "textList psalm ! nat 0 = ''The LORD is my shepherd''"
    and "highlightsList psalm = [''lord'', ''my'']" and "length (textList psalm) = 3"
    by (simp_all add: psalm_def)
  moreover have
    "highlighted_html sample_env (- 65536) [''lord'', ''my''] ''The LORD is my shepherd'' =
       ''The '' @ wrap_match (- 65536) ''LORD'' @ '' is '' @ wrap_match (- 65536) ''my'' @ '' shepherd''"
    by (simp add: eval_strings)
  ultimately show ?thesis
    using getHighlightedText_rewrites [of sample_env red psalm 0] sample_compiles
    by (simp add: fromHtml_def getColor_ibTextHighlight_def red_def)
qed

text \<open>
  C2: on a holder bound to a verse result, a click on the translation button at index
  \<open>t\<close> sets the verse text to \<^verbatim>\<open>getHighlightedText(context, item, t)\<close>: the click
  ends as that call ends, with its text in the verse view or with its exception.
\<close>

theorem click_shows_translation:
  assumes "bound env item holder" and "t < childCount holder"
  shows "map_sum id verseText (performClick env holder t) =
           getHighlightedText env (view_context holder) item (int t)"
proof -
  from assms(1) have "listening item holder"
    by (rule bound_listening)
  then show ?thesis
    using assms(2) by (simp add: performClick_listening split: sum.splits)
qed

theorem click_shows_translation_witness:
  "bound sample_env psalm sample_bound \<and> 2 < childCount sample_bound \<and>
   map_sum id verseText (performClick sample_env sample_bound 2) =
     Inr (Spanned (''Yahweh is '' @ wrap_match (- 65536) ''my'' @ '' shepherd'')
            FROM_HTML_MODE_LEGACY)"
  using click_shows_translation [OF sample_is_bound, of 2] sample_is_bound
  by (simp add: sample_bound_count sample_bound_context sample_text_2)

text \<open>
  C5: after a list is assigned to \<^verbatim>\<open>data\<close>, the adapter holds that list, its item
  count is the length of the list, and \<^verbatim>\<open>notifyDataSetChanged\<close> has been called once
  more.
\<close>

theorem set_data_count:
  "getItemCount (set_data v a) = length v \<and> data (set_data v a) = v \<and>
   dataSetChanged (set_data v a) = Suc (dataSetChanged a)"
  by (simp add: getItemCount_def set_data_def notifyDataSetChanged_def)

text \<open>
  C6: when the position is inside the data, every child of the translations layout is a
  button and the highlighted text of the top translation can be computed, then
  \<^verbatim>\<open>onBindViewHolder\<close> completes; the verse text is that highlighted text (the call
  without an index takes \<^verbatim>\<open>item.topTranslationValue\<close>), the button whose index is
  \<^verbatim>\<open>topTranslationValue\<close> is in the bold style and every other button in the plain
  style.
\<close>

theorem bind_renders_top_translation:
  assumes "0 \<le> position" and "position < int (getItemCount a)"
    and "list_all is_Button (translationsHolder holder)"
    and "getHighlightedText_default env (view_context holder) (data a ! nat position) = Inr spanned"
  shows "getHighlightedText env (view_context holder) (data a ! nat position)
           (topTranslationValue (data a ! nat position)) = Inr spanned \<and>
         (\<exists>holder'. onBindViewHolder env a holder position = Inr holder' \<and>
            verseText holder' = spanned \<and> childCount holder' = childCount holder \<and>
            (\<forall>t<childCount holder'.
               appearance_at holder' t =
                 Some (if int t = topTranslationValue (data a ! nat position)
                       then ibButtonBold else ibButton)))"
  using assms
  by (simp add: getHighlightedText_default_def onBindViewHolder_eq get_def getItemCount_def
      childCount_def appearance_bound)

theorem bind_renders_top_translation_witness:
  "onBindViewHolder sample_env sample_adapter sample_holder 0 = Inr sample_bound \<and>
   verseText sample_bound =
     Spanned
       (''The '' @ wrap_match (- 65536) ''Lord'' @ '' is '' @ wrap_match (- 65536) ''my'' @
        '' shepherd'')
       FROM_HTML_MODE_LEGACY \<and>
   topTranslationValue (data sample_adapter ! nat 0) = 1 \<and>
   appearance_at sample_bound 0 = Some ibButton \<and>
   appearance_at sample_bound 1 = Some ibButtonBold \<and>
   appearance_at sample_bound 2 = Some ibButton"
proof -
  have top: "topTranslationValue (data sample_adapter ! nat 0) = 1"
    by (simp add: sample_adapter_def psalm_def)
  have pos: "0 \<le> (0::int)" "0 < int (getItemCount sample_adapter)"
    by (simp_all add: getItemCount_def sample_adapter_def)
  have shown: "getHighlightedText_default sample_env (view_context sample_holder)
          (data sample_adapter ! nat 0) =
        Inr (Spanned
          (''The '' @ wrap_match (- 65536) ''Lord'' @ '' is '' @ wrap_match (- 65536) ''my'' @
           '' shepherd'') FROM_HTML_MODE_LEGACY)"
    using sample_text_1
    by (simp add: getHighlightedText_default_def sample_adapter_def sample_holder_eq)
       (simp add: psalm_def)
  from bind_renders_top_translation [OF pos sample_buttons shown]
  obtain holder' where bind: "onBindViewHolder sample_env sample_adapter sample_holder 0 = Inr holder'"
    and verse: "verseText holder' =
      Spanned (''The '' @ wrap_match (- 65536) ''Lord'' @ '' is '' @ wrap_match (- 65536) ''my'' @
        '' shepherd'') FROM_HTML_MODE_LEGACY"
    and styles: "\<forall>t<childCount holder'. appearance_at holder' t =
      Some (if int t = topTranslationValue (data sample_adapter ! nat 0)
            then ibButtonBold else ibButton)"
    by blast
  from bind sample_bind have same: "holder' = sample_bound"
    by simp
  from styles have "\<forall>t<3. appearance_at sample_bound t = Some (if int t = 1 then ibButtonBold else ibButton)"
    unfolding same top sample_bound_count .
  then have "appearance_at sample_bound 0 = Some ibButton"
    and "appearance_at sample_bound 1 = Some ibButtonBold"
    and "appearance_at sample_bound 2 = Some ibButton"
    by simp_all
  with sample_bind verse same top show ?thesis
    by simp
qed

text \<open>
  C8: \<^verbatim>\<open>onBindViewHolder\<close> completes only when the position is inside the data and
  every child of the translations layout is a button. Nothing in it checks either
  condition or handles the failure: a position outside the data ends the call with the
  index exception of \<^verbatim>\<open>data[position]\<close>, and a child that is not a button ends it with
  the exception of the cast.
\<close>

theorem bind_unguarded:
  "(onBindViewHolder env a holder position = Inr holder' \<longrightarrow>
      0 \<le> position \<and> position < int (length (data a)) \<and>
      list_all is_Button (translationsHolder holder)) \<and>
   (\<not> (0 \<le> position \<and> position < int (length (data a))) \<longrightarrow>
      onBindViewHolder env a holder position = Inl IndexOutOfBoundsException) \<and>
   (0 \<le> position \<and> position < int (length (data a)) \<and>
    getHighlightedText_default env (view_context holder) (data a ! nat position) = Inr spanned \<and>
    \<not> list_all is_Button (translationsHolder holder) \<longrightarrow>
      onBindViewHolder env a holder position = Inl ClassCastException)"
  by (auto simp: onBindViewHolder_eq get_def getHighlightedText_default_def
      split: sum.splits if_splits)

theorem bind_unguarded_witness:
  "onBindViewHolder sample_env sample_adapter sample_holder 0 = Inr sample_bound \<and>
   list_all is_Button (translationsHolder sample_holder) \<and>
   onBindViewHolder sample_env sample_adapter sample_holder 1 = Inl IndexOutOfBoundsException \<and>
   onBindViewHolder sample_env sample_adapter sample_holder (- 1) = Inl IndexOutOfBoundsException \<and>
   onBindViewHolder sample_env sample_adapter (addView sample_holder NotAButton) 0 =
     Inl ClassCastException"
proof -
  have top: "topTranslationValue psalm = 1" and len: "length (data sample_adapter) = 1"
    by (simp_all add: sample_adapter_def psalm_def)
  have shown: "getHighlightedText_default sample_env (view_context (addView sample_holder NotAButton))
          (data sample_adapter ! nat 0) =
        Inr (Spanned
          (''The '' @ wrap_match (- 65536) ''Lord'' @ '' is '' @ wrap_match (- 65536) ''my'' @
           '' shepherd'') FROM_HTML_MODE_LEGACY)"
    by (simp add: getHighlightedText_default_def sample_adapter_def top sample_holder_eq
        sample_text_1 addView_def)
  have other: "\<not> list_all is_Button (translationsHolder (addView sample_holder NotAButton))"
    by (simp add: addView_def is_Button_def)
  show ?thesis
    using bind_unguarded [of sample_env sample_adapter sample_holder 0 sample_bound]
      bind_unguarded [of sample_env sample_adapter sample_holder 1]
      bind_unguarded [of sample_env sample_adapter sample_holder "- 1"]
      bind_unguarded [of sample_env sample_adapter "addView sample_holder NotAButton" 0 _
        "Spanned (''The '' @ wrap_match (- 65536) ''Lord'' @ '' is '' @ wrap_match (- 65536) ''my'' @
           '' shepherd'') FROM_HTML_MODE_LEGACY"]
      shown other sample_buttons
    by (simp add: sample_bind len)
qed

text \<open>
  C9: on a bound holder, a click on a translation button whose text can be computed
  completes and leaves exactly one button in the bold style, the clicked one, whatever
  the styles were before; the holder stays bound.
\<close>

theorem click_bolds_clicked_only:
  assumes "bound env item holder" and "t < childCount holder"
    and "getHighlightedText env (view_context holder) item (int t) = Inr spanned"
  shows "\<exists>holder'. performClick env holder t = Inr holder' \<and> bold_buttons holder' = [t] \<and>
           childCount holder' = childCount holder \<and> bound env item holder'"
proof -
  let ?holder' =
    "holder\<lparr>verseText := spanned,
       translationsHolder :=
         map (\<lambda>i. on_button (clicked_button t i) (translationsHolder holder ! i))
           [0..<childCount holder]\<rparr>"
  from assms(1) have l: "listening item holder"
    by (rule bound_listening)
  with assms have click: "performClick env holder t = Inr ?holder'"
    by (simp add: performClick_listening)
  moreover have "bold_buttons ?holder' = [t]"
    using bold_buttons_clicked [where cs = "translationsHolder holder" and t = t] l assms(2)
    by (simp add: listening_buttons childCount_def)
  moreover have "childCount ?holder' = childCount holder"
    by (simp add: childCount_def)
  moreover have "bound env item ?holder'"
    using assms(1) click by (rule bound.click)
  ultimately show ?thesis
    by blast
qed

theorem click_bolds_clicked_only_witness:
  "bound sample_env psalm sample_bound \<and> bold_buttons sample_bound = [1] \<and>
   (\<exists>holder'. performClick sample_env sample_bound 2 = Inr holder' \<and> bold_buttons holder' = [2])"
proof -
  have "[0..<childCount sample_bound] = [0, 1, 2]"
    by (simp add: sample_bound_count eval_nat_numeral)
  then have "bold_buttons sample_bound = [1]"
    by (simp add: bold_buttons_def appearance_at_def getChildAt_def)
       (simp add: sample_bound_def bound_button_def psalm_def)
  moreover have "2 < childCount sample_bound"
    by (simp add: sample_bound_count)
  moreover have "getHighlightedText sample_env (view_context sample_bound) psalm (int 2) =
      Inr (Spanned (''Yahweh is '' @ wrap_match (- 65536) ''my'' @ '' shepherd'')
             FROM_HTML_MODE_LEGACY)"
    by (simp add: sample_bound_context sample_text_2)
  ultimately show ?thesis
    using click_bolds_clicked_only [OF sample_is_bound, of 2] sample_is_bound
    by blast
qed

text \<open>
  C10: when the inflated layout comes with an empty translations layout, a holder made
  by \<^verbatim>\<open>onCreateViewHolder\<close> has exactly \<^verbatim>\<open>TOTAL_VALUE\<close> children there, all of them
  buttons, and for every \<open>t\<close> from 0 below \<^verbatim>\<open>TOTAL_VALUE\<close> the \<open>t\<close>-th one is
  labelled \<^verbatim>\<open>getTranslationLabel(t)\<close> and tagged \<open>t\<close>.
\<close>

theorem onCreateViewHolder_buttons:
  assumes "translationsHolder (verse_result_view env) = []" and "0 \<le> TOTAL_VALUE env"
  shows "int (childCount (onCreateViewHolder env parent_context)) = TOTAL_VALUE env \<and>
         list_all is_Button (translationsHolder (onCreateViewHolder env parent_context)) \<and>
         (\<forall>t. 0 \<le> t \<and> t < TOTAL_VALUE env \<longrightarrow>
            (\<exists>b. getChildAt (onCreateViewHolder env parent_context) (nat t) = Some (Btn b) \<and>
                 btn_text b = getTranslationLabel env t \<and> translation_tag b = Some t \<and>
                 textAppearance b = Some ibButton))"
  using assms
  by (auto simp: onCreateViewHolder_eq childCount_def getChildAt_def list_all_length
      is_Button_def translation_button_def)

theorem onCreateViewHolder_buttons_witness:
  "childCount (onCreateViewHolder sample_env red) = 3 \<and>
   (\<exists>b. getChildAt (onCreateViewHolder sample_env red) 1 = Some (Btn b) \<and>
        btn_text b = ''NET'' \<and> translation_tag b = Some 1 \<and> textAppearance b = Some ibButton)"
proof -
  have "translationsHolder (verse_result_view sample_env) = []" and "0 \<le> TOTAL_VALUE sample_env"
    and "TOTAL_VALUE sample_env = 3" and "getTranslationLabel sample_env 1 = ''NET''"
    by (simp_all add: sample_env_def)
  with onCreateViewHolder_buttons [of sample_env red] show ?thesis
    by (auto dest: spec [of _ 1])
qed

end
